theory Spec2Isabelle
  imports Main "HOL-Library.AList"
begin

section \<open>Values of the JavaScript program\<close>

text \<open>
  The values the signed-URL cache of \<^verbatim>\<open>src/App.jsx\<close> holds are the ones
  \<^verbatim>\<open>JSON.parse\<close> can build: null, booleans, numbers, strings, arrays and objects.
  Numbers are integers here (a timestamp is \<^verbatim>\<open>Date.now()\<close>, integer epoch
  milliseconds). An object is the list of its own properties in the order in which
  JavaScript enumerates them.
\<close>

datatype json =
    JNull
  | JBool bool
  | JNum int
  | JStr string
  | JArr "json list"
  | JObj "(string \<times> json) list"

datatype error =
    TypeError
  | SyntaxError
  | SecurityError
  | QuotaExceededError
  | ServiceError string

text \<open>Exceptions and promise rejections are \<open>Inl\<close>; \<open>bind\<close> sequences two steps,
  \<open>try_catch\<close> is a \<^verbatim>\<open>try { ... } catch (error) { ... }\<close> block.\<close>

definition bind :: "'x + 'r \<Rightarrow> ('r \<Rightarrow> 'x + 's) \<Rightarrow> 'x + 's" where
  "bind step rest = (case step of Inl thrown \<Rightarrow> Inl thrown | Inr v \<Rightarrow> rest v)"

definition try_catch :: "'x + 'r \<Rightarrow> ('x \<Rightarrow> 'y + 'r) \<Rightarrow> 'y + 'r" where
  "try_catch body handler =
     (case body of Inl thrown \<Rightarrow> handler thrown | Inr v \<Rightarrow> Inr v)"

text \<open>Truthiness of a value that may be \<^verbatim>\<open>undefined\<close> (\<open>None\<close>).\<close>

fun truthy :: "json option \<Rightarrow> bool" where
  "truthy None = False"
| "truthy (Some JNull) = False"
| "truthy (Some (JBool b)) = b"
| "truthy (Some (JNum n)) = (n \<noteq> 0)"
| "truthy (Some (JStr s)) = (s \<noteq> [])"
| "truthy (Some (JArr xs)) = True"
| "truthy (Some (JObj kvs)) = True"

text \<open>\<^verbatim>\<open>v.name\<close> for a property name that no prototype defines (\<^verbatim>\<open>url\<close>,
  \<^verbatim>\<open>timestamp\<close>): the own property of an object, \<^verbatim>\<open>undefined\<close> on every
  other value. Reading a property of \<^verbatim>\<open>null\<close> throws.\<close>

fun get_property :: "json \<Rightarrow> string \<Rightarrow> error + json option" where
  "get_property JNull name = Inl TypeError"
| "get_property (JObj kvs) name = Inr (map_of kvs name)"
| "get_property v name = Inr None"

subsection \<open>Property order\<close>

text \<open>An array index is the canonical decimal string of an integer below \<open>2^32 - 1\<close>.
  An object enumerates its array-index keys first, in ascending numeric order, and then
  its other string keys in the order of their creation.\<close>

definition is_digit :: "char \<Rightarrow> bool" where
  "is_digit c = (48 \<le> (of_char c :: nat) \<and> (of_char c :: nat) \<le> 57)"

definition nat_of_digits :: "string \<Rightarrow> nat" where
  "nat_of_digits s = foldl (\<lambda>n c. 10 * n + ((of_char c :: nat) - 48)) 0 s"

definition array_index :: "string \<Rightarrow> nat option" where
  "array_index s =
     (if s \<noteq> [] \<and> list_all is_digit s \<and> (s = ''0'' \<or> hd s \<noteq> CHR ''0'')
         \<and> nat_of_digits s < 4294967295
      then Some (nat_of_digits s) else None)"

definition own_property_order :: "(string \<times> 'a) list \<Rightarrow> (string \<times> 'a) list" where
  "own_property_order kvs =
     sort_key (\<lambda>kv. the (array_index (fst kv))) (filter (\<lambda>kv. array_index (fst kv) \<noteq> None) kvs)
     @ filter (\<lambda>kv. array_index (fst kv) = None) kvs"

text \<open>Defining properties one after the other, and \<^verbatim>\<open>Map.prototype.set\<close> alike:
  an existing key keeps its place and takes the new value, a new key goes to the end
  (\<open>AList.update\<close>).\<close>

definition define_all :: "(string \<times> 'a) list \<Rightarrow> (string \<times> 'a) list" where
  "define_all kvs = fold (\<lambda>kv acc. AList.update (fst kv) (snd kv) acc) kvs []"

fun decimal :: "nat \<Rightarrow> string" where
  "decimal n =
     (if n < 10 then [''0123456789'' ! n]
      else decimal (n div 10) @ [''0123456789'' ! (n mod 10)])"

declare decimal.simps [simp del]

subsection \<open>JSON text\<close>

text \<open>
  An item of \<^verbatim>\<open>localStorage\<close> is a string. The program only tests it for
  emptiness and hands it to \<^verbatim>\<open>JSON.parse\<close>, so a string is represented by what
  the parser reads in it: \<open>JsonText v\<close> is the JSON text that is written as \<open>v\<close>
  (members in the order of the text, a key possibly twice), \<open>EmptyText\<close> is the empty
  string, and \<open>OtherText\<close> is any other string that is not JSON.
\<close>

datatype item = JsonText json | EmptyText | OtherText

text \<open>The value \<^verbatim>\<open>JSON.parse\<close> builds from the text: the members of an object are
  defined in the order of the text (a later duplicate overwrites), and the object then
  enumerates them in property order.\<close>

fun js_value :: "json \<Rightarrow> json" where
  "js_value (JArr xs) = JArr (map js_value xs)"
| "js_value (JObj kvs) =
     JObj (own_property_order (define_all (map (\<lambda>kv. (fst kv, js_value (snd kv))) kvs)))"
| "js_value v = v"

fun JSON_parse :: "item \<Rightarrow> error + json" where
  "JSON_parse (JsonText v) = Inr (js_value v)"
| "JSON_parse EmptyText = Inl SyntaxError"
| "JSON_parse OtherText = Inl SyntaxError"

text \<open>\<^verbatim>\<open>JSON.stringify\<close> writes the properties of a value in their enumeration
  order; no value of type \<open>json\<close> makes it throw.\<close>

definition JSON_stringify :: "json \<Rightarrow> item" where
  "JSON_stringify v = JsonText v"

text \<open>\<^verbatim>\<open>Object.entries\<close>: the own enumerable properties. \<^verbatim>\<open>null\<close> throws, a
  number or boolean has none, a string and an array have their indices.\<close>

fun Object_entries :: "json \<Rightarrow> error + (string \<times> json) list" where
  "Object_entries JNull = Inl TypeError"
| "Object_entries (JBool b) = Inr []"
| "Object_entries (JNum n) = Inr []"
| "Object_entries (JStr s) = Inr (map (\<lambda>(i, c). (decimal i, JStr [c])) (enumerate 0 s))"
| "Object_entries (JArr xs) = Inr (map (\<lambda>(i, x). (decimal i, x)) (enumerate 0 xs))"
| "Object_entries (JObj kvs) = Inr kvs"

text \<open>\<^verbatim>\<open>Object.fromEntries\<close> of a Map, and \<^verbatim>\<open>new Map(entries)\<close>.\<close>

definition Object_fromEntries :: "(string \<times> json) list \<Rightarrow> json" where
  "Object_fromEntries m = JObj (own_property_order (define_all m))"

definition new_Map :: "(string \<times> json) list \<Rightarrow> (string \<times> json) list" where
  "new_Map entries = define_all entries"

section \<open>The environment and the state\<close>

text \<open>
  What the browser and the object store decide is a parameter of the model:
  whether \<^verbatim>\<open>localStorage\<close> can be used at all, whether it accepts a write (quota),
  the readings of \<^verbatim>\<open>Date.now()\<close> in the call for a key (at the cache check and
  when its signing request settles), the outcome of the signing request for a key and
  of the listing call, and the rank by which pending signing requests settle.
  \<open>ToNumber_text\<close> is the engine's numeric conversion of a string or an array, which
  the program reaches only through a wrongly shaped \<^verbatim>\<open>timestamp\<close>.
\<close>

record object =
  Key :: string
  LastModified :: int

record env =
  storage_usable :: bool
  storage_accepts :: "string \<Rightarrow> item \<Rightarrow> bool"
  ToNumber_text :: "json \<Rightarrow> int option"
  check_time :: "string \<Rightarrow> int"
  settle_time :: "string \<Rightarrow> int"
  getSignedUrl :: "string \<Rightarrow> error + string"
  settle_rank :: "string \<Rightarrow> nat"
  listObjects :: "error + object list option"

text \<open>An image record \<^verbatim>\<open>{ id, url, lastModified }\<close>.\<close>

record image =
  id' :: string
  url :: json
  lastModified :: int

text \<open>
  The state: the \<^verbatim>\<open>Map\<close> inside \<^verbatim>\<open>imageUrlCache\<close> (entries in insertion
  order), \<^verbatim>\<open>localStorage\<close>, the lines written by \<^verbatim>\<open>console.error\<close>, the signing
  requests issued so far (key and \<^verbatim>\<open>expiresIn\<close>), and the component's
  \<^verbatim>\<open>images\<close> and \<^verbatim>\<open>loading\<close>.
\<close>

record state =
  cache :: "(string \<times> json) list"
  storage :: "string \<rightharpoonup> item"
  console :: "(string \<times> error) list"
  requests :: "(string \<times> nat) list"
  images :: "image list"
  loading :: bool

text \<open>A step that touches the state returns its result, or throws: \<open>Inl\<close> holds the
  error and the state as it is at the throw (nothing is rolled back).\<close>

type_synonym 'a result = "(error \<times> state) + 'a"

definition lift :: "state \<Rightarrow> error + 'a \<Rightarrow> 'a result" where
  "lift st r = (case r of Inl err \<Rightarrow> Inl (err, st) | Inr x \<Rightarrow> Inr x)"

definition console_error :: "string \<Rightarrow> error \<Rightarrow> state \<Rightarrow> state" where
  "console_error msg err st = st\<lparr>console := console st @ [(msg, err)]\<rparr>"

subsection \<open>localStorage\<close>

definition getItem :: "env \<Rightarrow> string \<Rightarrow> state \<Rightarrow> (item option) result" where
  "getItem e k st = (if storage_usable e then Inr (storage st k) else Inl (SecurityError, st))"

definition setItem :: "env \<Rightarrow> string \<Rightarrow> item \<Rightarrow> state \<Rightarrow> state result" where
  "setItem e k v st =
     (if \<not> storage_usable e then Inl (SecurityError, st)
      else if \<not> storage_accepts e k v then Inl (QuotaExceededError, st)
      else Inr (st\<lparr>storage := (storage st)(k \<mapsto> v)\<rparr>))"

definition removeItem :: "env \<Rightarrow> string \<Rightarrow> state \<Rightarrow> state result" where
  "removeItem e k st =
     (if storage_usable e then Inr (st\<lparr>storage := (storage st)(k := None)\<rparr>)
      else Inl (SecurityError, st))"

section \<open>The persistent image cache\<close>

definition CACHE_KEY :: string where
  "CACHE_KEY = ''pixelLens-imageCache''"

text \<open>
  \<^verbatim>\<open>loadCache\<close>: inside the \<^verbatim>\<open>try\<close>, read the item and, when it is truthy (a
  string that is not empty), parse it, else take \<^verbatim>\<open>{}\<close>; the \<^verbatim>\<open>catch\<close> logs
  and returns \<^verbatim>\<open>{}\<close>.
\<close>

definition loadCache :: "env \<Rightarrow> state \<Rightarrow> (json \<times> state) result" where
  "loadCache e st =
     try_catch
       (bind (getItem e CACHE_KEY st) (\<lambda>savedCache.
          case savedCache of
            None \<Rightarrow> Inr (JObj [], st)
          | Some EmptyText \<Rightarrow> Inr (JObj [], st)
          | Some text \<Rightarrow> bind (lift st (JSON_parse text)) (\<lambda>v. Inr (v, st))))
       (\<lambda>(err, st1). Inr (JObj [], console_error ''Error loading cache:'' err st1))"

text \<open>
  \<^verbatim>\<open>createPersistentImageCache\<close> up to the construction of the Map,
  \<^verbatim>\<open>new Map(Object.entries(loadCache()))\<close>, which stands outside every
  \<^verbatim>\<open>try\<close>. The result is the state with the new Map as its cache.
\<close>

definition createPersistentImageCache :: "env \<Rightarrow> state \<Rightarrow> state result" where
  "createPersistentImageCache e st =
     bind (loadCache e st) (\<lambda>(loaded, st1).
       bind (lift st1 (Object_entries loaded)) (\<lambda>entries.
         Inr (st1\<lparr>cache := new_Map entries\<rparr>)))"

definition saveCache :: "env \<Rightarrow> state \<Rightarrow> state result" where
  "saveCache e st =
     try_catch
       (let cacheObject = Object_fromEntries (cache st)
        in setItem e CACHE_KEY (JSON_stringify cacheObject) st)
       (\<lambda>(err, st1). Inr (console_error ''Error saving cache:'' err st1))"

text \<open>The four methods of the object that \<^verbatim>\<open>createPersistentImageCache\<close> returns,
  which is all that \<^verbatim>\<open>imageUrlCache\<close> offers.\<close>

definition cache_get :: "string \<Rightarrow> state \<Rightarrow> json option" where
  "cache_get key st = map_of (cache st) key"

definition cache_set :: "env \<Rightarrow> string \<Rightarrow> json \<Rightarrow> state \<Rightarrow> state result" where
  "cache_set e key v st = saveCache e (st\<lparr>cache := AList.update key v (cache st)\<rparr>)"

definition cache_has :: "string \<Rightarrow> state \<Rightarrow> bool" where
  "cache_has key st = (key \<in> fst ` set (cache st))"

definition cache_clear :: "env \<Rightarrow> state \<Rightarrow> state result" where
  "cache_clear e st = removeItem e CACHE_KEY (st\<lparr>cache := []\<rparr>)"

definition imageUrlCache_methods :: "string list" where
  "imageUrlCache_methods = [''get'', ''set'', ''has'', ''clear'']"

definition IMAGE_URL_EXPIRATION :: int where
  "IMAGE_URL_EXPIRATION = 3600000"

subsection \<open>Arithmetic on values\<close>

text \<open>\<^verbatim>\<open>Date.now() - x\<close> and the comparisons: \<open>None\<close> is \<^verbatim>\<open>NaN\<close>, with which
  every comparison is false. An object converts as a plain object does, to
  \<^verbatim>\<open>NaN\<close>; one that carries a \<^verbatim>\<open>toString\<close> or \<^verbatim>\<open>valueOf\<close> property of its own
  is not covered.\<close>

fun ToNumber :: "env \<Rightarrow> json option \<Rightarrow> int option" where
  "ToNumber e None = None"
| "ToNumber e (Some JNull) = Some 0"
| "ToNumber e (Some (JBool b)) = Some (if b then 1 else 0)"
| "ToNumber e (Some (JNum n)) = Some n"
| "ToNumber e (Some (JStr s)) = ToNumber_text e (JStr s)"
| "ToNumber e (Some (JArr xs)) = ToNumber_text e (JArr xs)"
| "ToNumber e (Some (JObj kvs)) = None"

definition js_minus :: "int \<Rightarrow> int option \<Rightarrow> int option" where
  "js_minus now x = map_option (\<lambda>t. now - t) x"

definition js_less :: "int option \<Rightarrow> int \<Rightarrow> bool" where
  "js_less x b = (case x of None \<Rightarrow> False | Some a \<Rightarrow> a < b)"

definition js_greater :: "int option \<Rightarrow> int \<Rightarrow> bool" where
  "js_greater x b = (case x of None \<Rightarrow> False | Some a \<Rightarrow> a > b)"

section \<open>The expiration sweep\<close>

text \<open>
  \<^verbatim>\<open>cleanupCache\<close> calls \<^verbatim>\<open>imageUrlCache.keys()\<close> and
  \<^verbatim>\<open>imageUrlCache.delete(key)\<close>. Calling a property that the object does not have
  throws a TypeError. \<open>sweep\<close> is the body of the \<^verbatim>\<open>forEach\<close>, on the keys of the
  Map.
\<close>

fun sweep :: "env \<Rightarrow> int \<Rightarrow> string list \<Rightarrow> state \<Rightarrow> state result" where
  "sweep e now [] st = Inr st"
| "sweep e now (key # keys) st =
     (case cache_get key st of
        None \<Rightarrow> Inl (TypeError, st)
      | Some entry \<Rightarrow>
          bind (lift st (get_property entry ''timestamp'')) (\<lambda>ts.
            if js_greater (js_minus now (ToNumber e ts)) IMAGE_URL_EXPIRATION
            then (if ''delete'' \<in> set imageUrlCache_methods
                  then sweep e now keys (st\<lparr>cache := AList.delete key (cache st)\<rparr>)
                  else Inl (TypeError, st))
            else sweep e now keys st))"

definition cleanupCache :: "env \<Rightarrow> int \<Rightarrow> state \<Rightarrow> state result" where
  "cleanupCache e now st =
     (if ''keys'' \<in> set imageUrlCache_methods
      then sweep e now (map fst (cache st)) st
      else Inl (TypeError, st))"

section \<open>The gallery loader\<close>

text \<open>The object literal \<^verbatim>\<open>{ url, timestamp: Date.now() }\<close>.\<close>

definition entry :: "string \<Rightarrow> int \<Rightarrow> json" where
  "entry u t = JObj [(''url'', JStr u), (''timestamp'', JNum t)]"

text \<open>
  \<^verbatim>\<open>getImageUrl\<close> runs in two parts. The first, up to its \<^verbatim>\<open>await\<close>, checks the
  cache and either returns the cached url or issues the signing request (validity
  3600 seconds). The second runs when the request has settled: it stores the entry and
  returns the url, or logs the rejection and returns \<^verbatim>\<open>null\<close>.
\<close>

datatype pending = Resolved "json option" | Awaiting string

definition issue_request :: "string \<Rightarrow> state \<Rightarrow> (pending \<times> state) result" where
  "issue_request key st = Inr (Awaiting key, st\<lparr>requests := requests st @ [(key, 3600)]\<rparr>)"

definition getImageUrl_begin :: "env \<Rightarrow> string \<Rightarrow> state \<Rightarrow> (pending \<times> state) result" where
  "getImageUrl_begin e key st =
     (case cache_get key st of
        None \<Rightarrow> issue_request key st
      | Some cachedEntry \<Rightarrow>
          if \<not> truthy (Some cachedEntry) then issue_request key st
          else
            bind (lift st (get_property cachedEntry ''timestamp'')) (\<lambda>ts.
              if js_less (js_minus (check_time e key) (ToNumber e ts)) IMAGE_URL_EXPIRATION
              then bind (lift st (get_property cachedEntry ''url'')) (\<lambda>u. Inr (Resolved u, st))
              else issue_request key st))"

definition getImageUrl_settle :: "env \<Rightarrow> string \<Rightarrow> state \<Rightarrow> (json option \<times> state) result" where
  "getImageUrl_settle e key st =
     try_catch
       (bind (lift st (getSignedUrl e key)) (\<lambda>u.
          bind (cache_set e key (entry u (settle_time e key)) st) (\<lambda>st1.
            Inr (Some (JStr u), st1))))
       (\<lambda>(err, st1).
          Inr (Some JNull, console_error (''Error getting URL for '' @ key @ '':'') err st1))"

definition getImageUrl :: "env \<Rightarrow> string \<Rightarrow> state \<Rightarrow> (json option \<times> state) result" where
  "getImageUrl e key st =
     bind (getImageUrl_begin e key st) (\<lambda>(p, st1).
       case p of
         Resolved u \<Rightarrow> Inr (u, st1)
       | Awaiting k \<Rightarrow> getImageUrl_settle e k st1)"

text \<open>
  \<^verbatim>\<open>loadImagesFromS3\<close>. The \<^verbatim>\<open>map\<close> over \<^verbatim>\<open>response.Contents\<close> runs the first
  part of \<^verbatim>\<open>getImageUrl\<close> for every object, in listing order; the pending requests
  then settle by rank, each running the second part; \<^verbatim>\<open>Promise.all\<close> gives the
  urls in listing order. Every awaited key is among the settled ones, since the rank
  only orders them, so \<open>url_of\<close> finds its url.
\<close>

fun begin_all :: "env \<Rightarrow> string list \<Rightarrow> state \<Rightarrow> (pending list \<times> state) result" where
  "begin_all e [] st = Inr ([], st)"
| "begin_all e (key # keys) st =
     bind (getImageUrl_begin e key st) (\<lambda>(p, st1).
       bind (begin_all e keys st1) (\<lambda>(ps, st2). Inr (p # ps, st2)))"

fun settle_all :: "env \<Rightarrow> string list \<Rightarrow> state \<Rightarrow> ((string \<times> json option) list \<times> state) result" where
  "settle_all e [] st = Inr ([], st)"
| "settle_all e (key # keys) st =
     bind (getImageUrl_settle e key st) (\<lambda>(u, st1).
       bind (settle_all e keys st1) (\<lambda>(us, st2). Inr ((key, u) # us, st2)))"

fun awaited :: "pending list \<Rightarrow> string list" where
  "awaited [] = []"
| "awaited (Resolved u # ps) = awaited ps"
| "awaited (Awaiting k # ps) = k # awaited ps"

fun url_of :: "(string \<times> json option) list \<Rightarrow> pending \<Rightarrow> json option" where
  "url_of settled (Resolved u) = u"
| "url_of settled (Awaiting k) = (case map_of settled k of None \<Rightarrow> None | Some u \<Rightarrow> u)"

fun imageOf :: "object \<Rightarrow> json option \<Rightarrow> image option" where
  "imageOf obj None = None"
| "imageOf obj (Some u) =
     (if truthy (Some u)
      then Some \<lparr>id' = Key obj, url = u, lastModified = LastModified obj\<rparr>
      else None)"

text \<open>\<^verbatim>\<open>sort((a, b) => b.lastModified.getTime() - a.lastModified.getTime())\<close>:
  the sort of an array is stable.\<close>

definition sortNewestFirst :: "image list \<Rightarrow> image list" where
  "sortNewestFirst xs = sort_key (\<lambda>i. - lastModified i) xs"

definition loadImagesFromS3 :: "env \<Rightarrow> state \<Rightarrow> state result" where
  "loadImagesFromS3 e st =
     try_catch
       (let st1 = st\<lparr>loading := True\<rparr> in
        bind (lift st1 (listObjects e)) (\<lambda>Contents.
          case Contents of
            None \<Rightarrow> Inr (st1\<lparr>images := [], loading := False\<rparr>)
          | Some objs \<Rightarrow>
              bind (begin_all e (map Key objs) st1) (\<lambda>(ps, st2).
                bind (settle_all e (sort_key (settle_rank e) (awaited ps)) st2) (\<lambda>(settled, st3).
                  let processedImages = map2 imageOf objs (map (url_of settled) ps);
                      filteredImages =
                        sortNewestFirst (map the (filter (\<lambda>i. i \<noteq> None) processedImages))
                  in Inr (st3\<lparr>images := filteredImages, loading := False\<rparr>)))))
       (\<lambda>(err, st1).
          Inr ((console_error ''Error loading images from S3:'' err st1)\<lparr>loading := False\<rparr>))"

section \<open>Notions used in the statements\<close>

text \<open>The url that \<^verbatim>\<open>getImageUrl\<close> returns for a key from a state; the resolution of
  an object has succeeded when that url is truthy, which is the test of
  \<^verbatim>\<open>url ? { ... } : null\<close>; \<open>record_of\<close> is the image record of such an object.\<close>

definition resolveUrl :: "env \<Rightarrow> string \<Rightarrow> state \<Rightarrow> json option" where
  "resolveUrl e key st = (case getImageUrl e key st of Inl x \<Rightarrow> None | Inr (u, st1) \<Rightarrow> u)"

definition succeeded :: "env \<Rightarrow> state \<Rightarrow> object \<Rightarrow> bool" where
  "succeeded e st obj = truthy (resolveUrl e (Key obj) st)"

definition record_of :: "env \<Rightarrow> state \<Rightarrow> object \<Rightarrow> image" where
  "record_of e st obj =
     \<lparr>id' = Key obj, url = the (resolveUrl e (Key obj) st), lastModified = LastModified obj\<rparr>"

text \<open>The value with which a settled signing request continues, the test of the cache
  check, and the outcome of the first part of \<^verbatim>\<open>getImageUrl\<close>, in closed form.\<close>

definition settled_url :: "env \<Rightarrow> string \<Rightarrow> json option" where
  "settled_url e key = (case getSignedUrl e key of Inl err \<Rightarrow> Some JNull | Inr u \<Rightarrow> Some (JStr u))"

definition cache_fresh :: "env \<Rightarrow> string \<Rightarrow> state \<Rightarrow> bool" where
  "cache_fresh e key st =
     (case cache_get key st of
        None \<Rightarrow> False
      | Some v \<Rightarrow>
          truthy (Some v)
          \<and> js_less (js_minus (check_time e key) (ToNumber e (projr (get_property v ''timestamp''))))
               IMAGE_URL_EXPIRATION)"

definition begun :: "env \<Rightarrow> string \<Rightarrow> state \<Rightarrow> pending" where
  "begun e key st =
     (if cache_fresh e key st
      then Resolved (projr (get_property (the (cache_get key st)) ''url''))
      else Awaiting key)"

section \<open>Scenarios\<close>

text \<open>A bucket with three objects, a signer that signs every key and one that rejects
  the key \<^verbatim>\<open>b\<close>, a browser whose storage works, one whose storage is full and one
  that denies access to it; the state at mount, and states with a cache, with persisted
  text and with images on display.\<close>

definition gallery_objects :: "object list" where
  "gallery_objects =
     [\<lparr>Key = ''a'', LastModified = 100\<rparr>,
      \<lparr>Key = ''b'', LastModified = 200\<rparr>,
      \<lparr>Key = ''c'', LastModified = 50\<rparr>]"

definition sign_all :: "string \<Rightarrow> error + string" where
  "sign_all k = Inr (''https://signed/'' @ k)"

definition sign_all_but_b :: "string \<Rightarrow> error + string" where
  "sign_all_but_b k = (if k = ''b'' then Inl (ServiceError ''AccessDenied'') else sign_all k)"

definition settle_last_first :: "string \<Rightarrow> nat" where
  "settle_last_first k = (if k = ''a'' then 2 else if k = ''b'' then 1 else 0)"

definition gallery_env :: "(string \<Rightarrow> error + string) \<Rightarrow> error + object list option \<Rightarrow> env" where
  "gallery_env sign listing =
     \<lparr>storage_usable = True,
      storage_accepts = (\<lambda>k v. True),
      ToNumber_text = (\<lambda>v. None),
      check_time = (\<lambda>k. 5000000),
      settle_time = (\<lambda>k. 5000250),
      getSignedUrl = sign,
      settle_rank = settle_last_first,
      listObjects = listing\<rparr>"

definition browser :: env where
  "browser = gallery_env sign_all (Inr None)"

definition quota_env :: env where
  "quota_env = browser\<lparr>storage_accepts := (\<lambda>k v. False)\<rparr>"

definition private_env :: env where
  "private_env = browser\<lparr>storage_usable := False\<rparr>"

definition mounted :: state where
  "mounted = \<lparr>cache = [], storage = Map.empty, console = [], requests = [],
              images = [], loading = True\<rparr>"

definition photo :: "string \<Rightarrow> int \<Rightarrow> image" where
  "photo k t = \<lparr>id' = k, url = JStr (''https://signed/'' @ k), lastModified = t\<rparr>"

definition cached_at :: "int \<Rightarrow> state" where
  "cached_at t = mounted\<lparr>cache := [(''a'', entry ''https://signed/a'' t)]\<rparr>"

definition expired_b :: state where
  "expired_b = mounted\<lparr>cache := [(''b'', entry ''https://signed/b'' 1000000)]\<rparr>"

definition shown :: state where
  "shown = mounted\<lparr>images := [photo ''a'' 100], loading := False\<rparr>"

definition stored :: "item \<Rightarrow> state" where
  "stored text = mounted\<lparr>storage := [CACHE_KEY \<mapsto> text]\<rparr>"

definition album :: state where
  "album = mounted\<lparr>cache :=
     [(''b.jpg'', entry ''https://signed/b.jpg'' 11),
      (''10'', entry ''https://signed/10'' 12),
      (''9'', entry ''https://signed/9'' 13)]\<rparr>"

lemmas scenario_defs =
  gallery_env_def sign_all_def sign_all_but_b_def mounted_def cached_at_def shown_def
  stored_def browser_def quota_env_def private_env_def photo_def gallery_objects_def
  settle_last_first_def album_def expired_b_def

section \<open>Sequencing, and the cache object\<close>

lemma bind_Inr [simp]: "bind (Inr x) f = f x"
  by (simp add: bind_def)

lemma bind_Inl [simp]: "bind (Inl err) f = Inl err"
  by (simp add: bind_def)

lemma try_catch_Inr [simp]: "try_catch (Inr x) h = Inr x"
  by (simp add: try_catch_def)

lemma try_catch_Inl [simp]: "try_catch (Inl err) h = h err"
  by (simp add: try_catch_def)

lemma lift_Inr [simp]: "lift st (Inr x) = Inr x"
  by (simp add: lift_def)

lemma lift_Inl [simp]: "lift st (Inl err) = Inl (err, st)"
  by (simp add: lift_def)

text \<open>\<^verbatim>\<open>saveCache\<close> never throws: it writes the item, or logs why it could not.\<close>

lemma saveCache_cases:
  "saveCache e st =
     (if storage_usable e
      then if storage_accepts e CACHE_KEY (JSON_stringify (Object_fromEntries (cache st)))
           then Inr (st\<lparr>storage := (storage st)(CACHE_KEY \<mapsto> JSON_stringify (Object_fromEntries (cache st)))\<rparr>)
           else Inr (console_error ''Error saving cache:'' QuotaExceededError st)
      else Inr (console_error ''Error saving cache:'' SecurityError st))"
  by (simp add: saveCache_def setItem_def Let_def)

lemma saveCache_frame:
  "\<exists>st1. saveCache e st = Inr st1 \<and> cache st1 = cache st \<and> requests st1 = requests st
      \<and> images st1 = images st \<and> loading st1 = loading st"
  by (simp add: saveCache_cases console_error_def)

lemma cache_set_frame:
  "\<exists>st1. cache_set e key v st = Inr st1 \<and> cache st1 = AList.update key v (cache st)
      \<and> requests st1 = requests st \<and> images st1 = images st \<and> loading st1 = loading st"
  using saveCache_frame [of e "st\<lparr>cache := AList.update key v (cache st)\<rparr>"]
  by (simp add: cache_set_def)

text \<open>The keys of the Map stay distinct.\<close>

lemma distinct_fold_update:
  "distinct (map fst acc) \<Longrightarrow>
   distinct (map fst (fold (\<lambda>kv acc. AList.update (fst kv) (snd kv) acc) kvs acc))"
  by (induction kvs arbitrary: acc) (simp_all add: distinct_update)

lemma distinct_new_Map: "distinct (map fst (new_Map entries))"
  by (simp add: new_Map_def define_all_def distinct_fold_update)

lemma cache_set_distinct:
  "distinct (map fst (cache st)) \<Longrightarrow> cache_set e key v st = Inr st1 \<Longrightarrow>
   distinct (map fst (cache st1))"
  using cache_set_frame [of e key v st] by (auto simp: distinct_update)

section \<open>Resolving one key\<close>

lemma settle_rejected:
  "getSignedUrl e key = Inl err \<Longrightarrow>
   getImageUrl_settle e key st =
     Inr (Some JNull, console_error (''Error getting URL for '' @ key @ '':'') err st)"
  by (simp add: getImageUrl_settle_def)

lemma settle_signed:
  assumes "getSignedUrl e key = Inr u"
  shows "\<exists>st1. getImageUrl_settle e key st = Inr (Some (JStr u), st1)
           \<and> cache st1 = AList.update key (entry u (settle_time e key)) (cache st)
           \<and> requests st1 = requests st \<and> images st1 = images st \<and> loading st1 = loading st"
proof -
  obtain st1 where s: "cache_set e key (entry u (settle_time e key)) st = Inr st1"
    and f: "cache st1 = AList.update key (entry u (settle_time e key)) (cache st)"
      "requests st1 = requests st" "images st1 = images st" "loading st1 = loading st"
    using cache_set_frame by blast
  show ?thesis
    using assms s f by (simp add: getImageUrl_settle_def)
qed

lemma begin_absent:
  "cache_get key st = None \<Longrightarrow>
   getImageUrl_begin e key st = Inr (Awaiting key, st\<lparr>requests := requests st @ [(key, 3600)]\<rparr>)"
  by (simp add: getImageUrl_begin_def issue_request_def)

lemma begin_entry:
  "cache_get key st = Some (entry u t) \<Longrightarrow>
   getImageUrl_begin e key st =
     (if check_time e key - t < IMAGE_URL_EXPIRATION then Inr (Resolved (Some (JStr u)), st)
      else Inr (Awaiting key, st\<lparr>requests := requests st @ [(key, 3600)]\<rparr>))"
  by (simp add: getImageUrl_begin_def issue_request_def entry_def js_less_def js_minus_def)

lemma begin_miss:
  assumes "cache_get key st = None
     \<or> (\<exists>u t. cache_get key st = Some (entry u t) \<and> IMAGE_URL_EXPIRATION \<le> check_time e key - t)"
  shows "getImageUrl_begin e key st = Inr (Awaiting key, st\<lparr>requests := requests st @ [(key, 3600)]\<rparr>)"
  using assms by (auto simp: begin_absent begin_entry)

lemma get_property_truthy:
  "truthy (Some v) \<Longrightarrow> get_property v name = Inr (projr (get_property v name))"
  by (cases v) simp_all

text \<open>The first part never throws; it changes nothing but the list of requests.\<close>

lemma begin_eq:
  "getImageUrl_begin e key st =
     Inr (begun e key st,
          if cache_fresh e key st then st else st\<lparr>requests := requests st @ [(key, 3600)]\<rparr>)"
proof (cases "cache_get key st")
  case None
  then show ?thesis
    by (simp add: getImageUrl_begin_def issue_request_def begun_def cache_fresh_def)
next
  case (Some v)
  show ?thesis
  proof (cases "truthy (Some v)")
    case False
    then show ?thesis using Some
      by (simp add: getImageUrl_begin_def issue_request_def begun_def cache_fresh_def)
  next
    case True
    have t: "get_property v ''timestamp'' = Inr (projr (get_property v ''timestamp''))"
      and u: "get_property v ''url'' = Inr (projr (get_property v ''url''))"
      using True by (rule get_property_truthy)+
    have "getImageUrl_begin e key st =
        bind (lift st (get_property v ''timestamp'')) (\<lambda>ts.
              if js_less (js_minus (check_time e key) (ToNumber e ts)) IMAGE_URL_EXPIRATION
              then bind (lift st (get_property v ''url'')) (\<lambda>u. Inr (Resolved u, st))
              else issue_request key st)"
      using Some True by (simp add: getImageUrl_begin_def)
    also have "\<dots> =
        (if js_less (js_minus (check_time e key) (ToNumber e (projr (get_property v ''timestamp''))))
              IMAGE_URL_EXPIRATION
         then Inr (Resolved (projr (get_property v ''url'')), st)
         else issue_request key st)"
      by (subst t, subst u) simp
    finally show ?thesis using Some True
      by (simp add: issue_request_def begun_def cache_fresh_def)
  qed
qed

lemma cache_fresh_cache: "cache st2 = cache st \<Longrightarrow> cache_fresh e key st2 = cache_fresh e key st"
  by (simp add: cache_fresh_def cache_get_def)

lemma begun_cache: "cache st2 = cache st \<Longrightarrow> begun e key st2 = begun e key st"
  by (simp add: begun_def cache_fresh_def cache_get_def)

text \<open>
  Claim C2. When the cache holds an entry \<^verbatim>\<open>{ url, timestamp }\<close> for the key and, at
  the time of the call, its age is less than \<open>IMAGE_URL_EXPIRATION\<close>,
  \<^verbatim>\<open>getImageUrl\<close> returns the url of that entry and leaves the whole state as it
  was: no signing request is issued, and the cache and its entry for the key are
  unchanged.
\<close>

theorem getImageUrl_cache_hit:
  assumes "cache_get key st = Some (entry u t)"
      and "check_time e key - t < IMAGE_URL_EXPIRATION"
  shows "getImageUrl e key st = Inr (Some (JStr u), st)"
  using assms by (simp add: getImageUrl_def begin_entry)

text \<open>The entry is ten seconds old.\<close>

theorem getImageUrl_cache_hit_witness:
  "getImageUrl browser ''a'' (cached_at 4990000)
     = Inr (Some (JStr ''https://signed/a''), cached_at 4990000)"
  using getImageUrl_cache_hit [of "''a''" "cached_at 4990000" "''https://signed/a''" 4990000 browser]
  by (simp add: scenario_defs cache_get_def IMAGE_URL_EXPIRATION_def)

text \<open>
  Claim C3. When the cache holds no entry for the key, or an entry whose age is at least
  \<open>IMAGE_URL_EXPIRATION\<close>, \<^verbatim>\<open>getImageUrl\<close> issues exactly one signing request, for
  the key and with a validity of 3600 seconds; when the request succeeds, the call
  stores \<^verbatim>\<open>{ url, timestamp }\<close> under the key, the timestamp being the reading of
  \<^verbatim>\<open>Date.now()\<close> when the request has settled, in place of any entry the key had, and
  returns the url.
\<close>

theorem getImageUrl_cache_miss:
  assumes "cache_get key st = None
     \<or> (\<exists>u t. cache_get key st = Some (entry u t) \<and> IMAGE_URL_EXPIRATION \<le> check_time e key - t)"
  shows "\<exists>r st1. getImageUrl e key st = Inr (r, st1)
           \<and> requests st1 = requests st @ [(key, 3600)]
           \<and> (\<forall>u. getSignedUrl e key = Inr u \<longrightarrow>
                 r = Some (JStr u)
                 \<and> cache st1 = AList.update key (entry u (settle_time e key)) (cache st)
                 \<and> cache_get key st1 = Some (entry u (settle_time e key)))"
proof (cases "getSignedUrl e key")
  case (Inl err)
  then show ?thesis
    using begin_miss [OF assms]
    by (simp add: getImageUrl_def settle_rejected console_error_def)
next
  case (Inr u)
  let ?st = "st\<lparr>requests := requests st @ [(key, 3600)]\<rparr>"
  obtain st1 where s: "getImageUrl_settle e key ?st = Inr (Some (JStr u), st1)"
    and f: "cache st1 = AList.update key (entry u (settle_time e key)) (cache ?st)"
      "requests st1 = requests ?st"
    using settle_signed [OF Inr] by blast
  show ?thesis
    using begin_miss [OF assms] s f Inr
    by (simp add: getImageUrl_def cache_get_def update_conv')
qed

text \<open>The entry is 4000 seconds old; the new one takes its place.\<close>

theorem getImageUrl_cache_miss_witness:
  "\<exists>st1. getImageUrl browser ''a'' (cached_at 1000000) = Inr (Some (JStr ''https://signed/a''), st1)
      \<and> requests st1 = [(''a'', 3600)]
      \<and> cache st1 = [(''a'', entry ''https://signed/a'' 5000250)]"
proof -
  have "cache_get ''a'' (cached_at 1000000) = None
     \<or> (\<exists>u t. cache_get ''a'' (cached_at 1000000) = Some (entry u t)
           \<and> IMAGE_URL_EXPIRATION \<le> check_time browser ''a'' - t)"
    by (intro disjI2 exI [of _ "''https://signed/a''"] exI [of _ 1000000])
       (simp add: scenario_defs cache_get_def IMAGE_URL_EXPIRATION_def)
  from getImageUrl_cache_miss [OF this]
  obtain r st1 where "getImageUrl browser ''a'' (cached_at 1000000) = Inr (r, st1)"
    and "requests st1 = requests (cached_at 1000000) @ [(''a'', 3600)]"
    and "\<forall>u. getSignedUrl browser ''a'' = Inr u \<longrightarrow>
                 r = Some (JStr u)
                 \<and> cache st1 = AList.update ''a'' (entry u (settle_time browser ''a'')) (cache (cached_at 1000000))
                 \<and> cache_get ''a'' st1 = Some (entry u (settle_time browser ''a''))"
    by blast
  then show ?thesis
    by (simp add: scenario_defs)
qed

text \<open>The test of the cache check on an entry \<^verbatim>\<open>{ url, timestamp }\<close>, and on no entry.\<close>

lemma cache_fresh_entry:
  "cache_get key st = Some (entry u t) \<Longrightarrow>
   cache_fresh e key st \<longleftrightarrow> check_time e key - t < IMAGE_URL_EXPIRATION"
  by (simp add: cache_fresh_def entry_def js_less_def js_minus_def)

lemma cache_fresh_absent: "cache_get key st = None \<Longrightarrow> \<not> cache_fresh e key st"
  by (simp add: cache_fresh_def)

lemma begin_not_fresh:
  assumes "\<not> cache_fresh e key st"
  shows "getImageUrl_begin e key st = Inr (Awaiting key, st\<lparr>requests := requests st @ [(key, 3600)]\<rparr>)"
  using assms by (simp add: begin_eq begun_def)

text \<open>
  Claim C7. When a call of \<^verbatim>\<open>getImageUrl\<close> finds no fresh entry for the key, so that
  it asks for a signature, and the signing request is rejected, the call does not
  throw: it logs the error and returns \<^verbatim>\<open>null\<close>. Besides the request and the
  console line nothing changes: the cache, with whatever entry the key had, and the
  persisted text stay as they were.
\<close>

theorem getImageUrl_signing_failure:
  assumes "\<not> cache_fresh e key st"
      and "getSignedUrl e key = Inl err"
  shows "getImageUrl e key st =
           Inr (Some JNull,
                st\<lparr>requests := requests st @ [(key, 3600)],
                   console := console st @ [(''Error getting URL for '' @ key @ '':'', err)]\<rparr>)"
  using begin_not_fresh [OF assms(1)] assms(2)
  by (simp add: getImageUrl_def settle_rejected console_error_def)

text \<open>The signer rejects \<^verbatim>\<open>b\<close>, once with an empty cache and once with an expired
  entry for \<^verbatim>\<open>b\<close>, which stays.\<close>

theorem getImageUrl_signing_failure_witness:
  "getImageUrl (gallery_env sign_all_but_b (Inr None)) ''b'' mounted
     = Inr (Some JNull,
            mounted\<lparr>requests := [(''b'', 3600)],
                    console := [(''Error getting URL for b:'', ServiceError ''AccessDenied'')]\<rparr>)
   \<and> getImageUrl (gallery_env sign_all_but_b (Inr None)) ''b'' (expired_b)
     = Inr (Some JNull,
            expired_b\<lparr>requests := [(''b'', 3600)],
                      console := [(''Error getting URL for b:'', ServiceError ''AccessDenied'')]\<rparr>)"
proof -
  have 1: "\<not> cache_fresh (gallery_env sign_all_but_b (Inr None)) ''b'' mounted"
    by (rule cache_fresh_absent) (simp add: cache_get_def mounted_def)
  have "cache_get ''b'' expired_b = Some (entry ''https://signed/b'' 1000000)"
    by (simp add: cache_get_def expired_b_def mounted_def)
  then have 2: "\<not> cache_fresh (gallery_env sign_all_but_b (Inr None)) ''b'' expired_b"
    by (simp add: cache_fresh_entry gallery_env_def IMAGE_URL_EXPIRATION_def)
  have 3: "getSignedUrl (gallery_env sign_all_but_b (Inr None)) ''b'' = Inl (ServiceError ''AccessDenied'')"
    by (simp add: gallery_env_def sign_all_but_b_def)
  show ?thesis
    using getImageUrl_signing_failure [OF 1 3] getImageUrl_signing_failure [OF 2 3]
    by (simp add: mounted_def expired_b_def)
qed

section \<open>The expiration sweep\<close>

text \<open>
  Claim C1 says that one run of the sweep removes the entries aged
  \<open>IMAGE_URL_EXPIRATION\<close> or more, keeps the others and does not throw. The program
  does otherwise: \<^verbatim>\<open>imageUrlCache\<close> has the methods \<^verbatim>\<open>get\<close>, \<^verbatim>\<open>set\<close>,
  \<^verbatim>\<open>has\<close> and \<^verbatim>\<open>clear\<close> only, so \<^verbatim>\<open>imageUrlCache.keys()\<close> throws a TypeError
  on every run, before any entry is looked at, and the cache stays as it was.
\<close>

theorem cleanupCache_throws: "cleanupCache e now st = Inl (TypeError, st)"
  by (simp add: cleanupCache_def imageUrlCache_methods_def)

text \<open>An entry that is an hour and a millisecond old survives the sweep.\<close>

lemma cleanupCache_keeps_expired:
  "cleanupCache browser 3600001 (cached_at 0) = Inl (TypeError, cached_at 0)
   \<and> cache_get ''a'' (cached_at 0) = Some (entry ''https://signed/a'' 0)"
  by (simp add: cleanupCache_def imageUrlCache_methods_def cache_get_def scenario_defs)

section \<open>Loading the gallery\<close>

subsection \<open>All resolutions of one load\<close>

lemma begin_all_eq:
  "\<exists>st1. begin_all e keys st = Inr (map (\<lambda>k. begun e k st) keys, st1)
      \<and> cache st1 = cache st \<and> storage st1 = storage st \<and> console st1 = console st
      \<and> images st1 = images st \<and> loading st1 = loading st
      \<and> (list_all (\<lambda>k. cache_fresh e k st) keys \<longrightarrow> st1 = st)"
proof (induction keys arbitrary: st)
  case Nil
  show ?case by simp
next
  case (Cons k ks)
  define st0 where
    "st0 = (if cache_fresh e k st then st else st\<lparr>requests := requests st @ [(k, 3600)]\<rparr>)"
  have c: "cache st0 = cache st" "storage st0 = storage st" "console st0 = console st"
    "images st0 = images st" "loading st0 = loading st" "cache_fresh e k st \<longrightarrow> st0 = st"
    by (simp_all add: st0_def)
  obtain st1 where b: "begin_all e ks st0 = Inr (map (\<lambda>k. begun e k st0) ks, st1)"
    and f: "cache st1 = cache st0" "storage st1 = storage st0" "console st1 = console st0"
      "images st1 = images st0" "loading st1 = loading st0"
      "list_all (\<lambda>k. cache_fresh e k st0) ks \<longrightarrow> st1 = st0"
    using Cons.IH [of st0] by blast
  have m: "map (\<lambda>k. begun e k st0) ks = map (\<lambda>k. begun e k st) ks"
    using begun_cache [OF c(1)] by simp
  have l: "list_all (\<lambda>k. cache_fresh e k st0) ks = list_all (\<lambda>k. cache_fresh e k st) ks"
    using cache_fresh_cache [OF c(1)] by simp
  have head: "begin_all e (k # ks) st = Inr (map (\<lambda>k. begun e k st) (k # ks), st1)"
    using b m by (simp add: begin_eq st0_def)
  show ?case
    using head c f l by auto
qed

text \<open>The second part never throws either, and its value is decided by the signer.\<close>

lemma settle_eq: "\<exists>st1. getImageUrl_settle e key st = Inr (settled_url e key, st1)"
proof (cases "getSignedUrl e key")
  case (Inl err)
  then show ?thesis by (simp add: settle_rejected settled_url_def)
next
  case (Inr u)
  then show ?thesis using settle_signed [OF Inr, of st] by (auto simp: settled_url_def)
qed

lemma settle_all_eq:
  "\<exists>st1. settle_all e keys st = Inr (map (\<lambda>k. (k, settled_url e k)) keys, st1)"
proof (induction keys arbitrary: st)
  case Nil
  show ?case by simp
next
  case (Cons k ks)
  obtain st0 where s: "getImageUrl_settle e k st = Inr (settled_url e k, st0)"
    using settle_eq by blast
  obtain st1 where "settle_all e ks st0 = Inr (map (\<lambda>k. (k, settled_url e k)) ks, st1)"
    using Cons.IH by blast
  then show ?case using s by simp
qed

lemma map_of_settled:
  "k \<in> set keys \<Longrightarrow> map_of (map (\<lambda>k. (k, settled_url e k)) keys) k = Some (settled_url e k)"
  by (induction keys) auto

lemma awaited_mem: "Awaiting k \<in> set ps \<Longrightarrow> k \<in> set (awaited ps)"
  by (induction ps rule: awaited.induct) auto

lemma resolveUrl_eq:
  "resolveUrl e key st =
     (case begun e key st of Resolved u \<Rightarrow> u | Awaiting k \<Rightarrow> settled_url e k)"
proof (cases "cache_fresh e key st")
  case True
  then show ?thesis
    by (simp add: resolveUrl_def getImageUrl_def begin_eq begun_def)
next
  case False
  obtain st1 where "getImageUrl_settle e key (st\<lparr>requests := requests st @ [(key, 3600)]\<rparr>)
      = Inr (settled_url e key, st1)"
    using settle_eq by blast
  then show ?thesis using False
    by (simp add: resolveUrl_def getImageUrl_def begin_eq begun_def)
qed

lemma resolveUrl_cache: "cache st2 = cache st \<Longrightarrow> resolveUrl e key st2 = resolveUrl e key st"
  using begun_cache [of st2 st e key] by (simp add: resolveUrl_eq)

lemma resolveUrl_absent:
  "cache_get key st = None \<Longrightarrow> resolveUrl e key st = settled_url e key"
  by (simp add: resolveUrl_eq begun_def cache_fresh_def)

text \<open>Whatever the order in which the requests settle, \<^verbatim>\<open>Promise.all\<close> hands each
  object the url that \<^verbatim>\<open>getImageUrl\<close> alone would have returned for its key.\<close>

lemma url_of_settled:
  assumes "p = begun e key st" and "p \<in> set ps"
  shows "url_of (map (\<lambda>k. (k, settled_url e k)) (sort_key r (awaited ps))) p = resolveUrl e key st"
proof (cases p)
  case (Resolved u)
  then show ?thesis using assms by (simp add: resolveUrl_eq)
next
  case (Awaiting k)
  then have "k \<in> set (sort_key r (awaited ps))"
    using assms(2) awaited_mem by simp
  then show ?thesis using Awaiting assms(1)
    by (simp add: resolveUrl_eq map_of_settled)
qed

subsection \<open>The list of images\<close>

lemma map2_map_same: "map2 f xs (map g xs) = map (\<lambda>x. f x (g x)) xs"
  by (induction xs) auto

lemma records_filter:
  "map the (filter (\<lambda>i. i \<noteq> None) (map (\<lambda>obj. imageOf obj (resolveUrl e (Key obj) st)) objs))
     = map (record_of e st) (filter (succeeded e st) objs)"
proof (induction objs)
  case Nil
  show ?case by simp
next
  case (Cons obj objs)
  then show ?case
    by (cases "resolveUrl e (Key obj) st") (simp_all add: succeeded_def record_of_def)
qed

lemma loadImagesFromS3_listed:
  assumes "listObjects e = Inr (Some objs)"
  shows "\<exists>st1. loadImagesFromS3 e st = Inr st1 \<and> loading st1 = False
           \<and> images st1 = sortNewestFirst (map (record_of e st) (filter (succeeded e st) objs))"
proof -
  define st0 where "st0 = st\<lparr>loading := True\<rparr>"
  define ps where "ps = map (\<lambda>k. begun e k st0) (map Key objs)"
  define settled where
    "settled = map (\<lambda>k. (k, settled_url e k)) (sort_key (settle_rank e) (awaited ps))"
  have c: "cache st0 = cache st" by (simp add: st0_def)
  obtain st2 where b: "begin_all e (map Key objs) st0 = Inr (ps, st2)"
    using begin_all_eq [of e "map Key objs" st0] ps_def by blast
  obtain st3 where s: "settle_all e (sort_key (settle_rank e) (awaited ps)) st2 = Inr (settled, st3)"
    using settle_all_eq settled_def by blast
  have "url_of settled (begun e (Key obj) st0) = resolveUrl e (Key obj) st0"
    if "obj \<in> set objs" for obj
  proof -
    have "begun e (Key obj) st0 \<in> set ps"
      using that by (auto simp: ps_def)
    then show ?thesis
      using url_of_settled [OF refl, of e "Key obj" st0 ps "settle_rank e"]
      by (simp add: settled_def)
  qed
  then have u: "map (url_of settled) ps = map (\<lambda>obj. resolveUrl e (Key obj) st) objs"
    by (simp add: ps_def resolveUrl_cache [OF c])
  have "map2 imageOf objs (map (url_of settled) ps)
      = map (\<lambda>obj. imageOf obj (resolveUrl e (Key obj) st)) objs"
    unfolding u by (rule map2_map_same)
  then have "loadImagesFromS3 e st =
      Inr (st3\<lparr>images := sortNewestFirst (map (record_of e st) (filter (succeeded e st) objs)),
               loading := False\<rparr>)"
    using assms b s records_filter [of e st objs]
    by (simp add: loadImagesFromS3_def Let_def st0_def [symmetric])
  then show ?thesis by simp
qed

lemma sortNewestFirst_sorted:
  "sorted_wrt (\<lambda>a b. lastModified b \<le> lastModified a) (sortNewestFirst xs)"
proof -
  have "sorted (map (\<lambda>i. - lastModified i) (sortNewestFirst xs))"
    by (simp add: sortNewestFirst_def)
  then show ?thesis
    by (simp add: sorted_map sorted_wrt_iff_nth_less)
qed

text \<open>
  Claim C4. For every listing with objects, and in whatever order the signing requests
  settle, \<^verbatim>\<open>loadImagesFromS3\<close> does not throw and sets \<^verbatim>\<open>images\<close> to exactly
  the records of the objects whose url resolution succeeded, an object whose
  resolution gave \<^verbatim>\<open>null\<close> being dropped, sorted by \<^verbatim>\<open>lastModified\<close>, newest
  first: of two neighbours in the list the first is at least as new as the second.
\<close>

theorem loadImagesFromS3_result:
  assumes "listObjects e = Inr (Some objs)"
  shows "\<exists>st1. loadImagesFromS3 e st = Inr st1
           \<and> images st1 = sortNewestFirst (map (record_of e st) (filter (succeeded e st) objs))
           \<and> set (images st1) = record_of e st ` {obj \<in> set objs. succeeded e st obj}
           \<and> length (images st1) = length (filter (succeeded e st) objs)
           \<and> (\<forall>i. Suc i < length (images st1) \<longrightarrow>
                 lastModified (images st1 ! Suc i) \<le> lastModified (images st1 ! i))"
proof -
  obtain st1 where l: "loadImagesFromS3 e st = Inr st1"
    and i: "images st1 = sortNewestFirst (map (record_of e st) (filter (succeeded e st) objs))"
    using loadImagesFromS3_listed [OF assms] by blast
  have "sorted_wrt (\<lambda>a b. lastModified b \<le> lastModified a) (images st1)"
    unfolding i by (rule sortNewestFirst_sorted)
  then have adj: "\<forall>i. Suc i < length (images st1) \<longrightarrow>
                 lastModified (images st1 ! Suc i) \<le> lastModified (images st1 ! i)"
    by (simp add: sorted_wrt_iff_nth_less)
  have "set (images st1) = record_of e st ` {obj \<in> set objs. succeeded e st obj}"
    unfolding i by (auto simp: sortNewestFirst_def)
  moreover have "length (images st1) = length (filter (succeeded e st) objs)"
    unfolding i by (simp add: sortNewestFirst_def)
  ultimately show ?thesis using l i adj by blast
qed

lemma gallery_env_sel [simp]:
  "getSignedUrl (gallery_env sign listing) = sign"
  "listObjects (gallery_env sign listing) = listing"
  by (simp_all add: gallery_env_def)

lemma mounted_resolveUrl: "resolveUrl e key mounted = settled_url e key"
  by (rule resolveUrl_absent) (simp add: cache_get_def mounted_def)

text \<open>The bucket holds \<^verbatim>\<open>a\<close> (100), \<^verbatim>\<open>b\<close> (200) and \<^verbatim>\<open>c\<close> (50). When every key
  is signed the list is \<^verbatim>\<open>b, a, c\<close>; when the request for \<^verbatim>\<open>b\<close> is rejected it is
  \<^verbatim>\<open>a, c\<close>.\<close>

theorem loadImagesFromS3_result_witness:
  "(\<exists>st1. loadImagesFromS3 (gallery_env sign_all (Inr (Some gallery_objects))) mounted = Inr st1
       \<and> images st1 = [photo ''b'' 200, photo ''a'' 100, photo ''c'' 50])
   \<and> (\<exists>st1. loadImagesFromS3 (gallery_env sign_all_but_b (Inr (Some gallery_objects))) mounted = Inr st1
       \<and> images st1 = [photo ''a'' 100, photo ''c'' 50])"
proof -
  have all: "sortNewestFirst (map (record_of (gallery_env sign_all listing) mounted)
                (filter (succeeded (gallery_env sign_all listing) mounted) gallery_objects))
             = [photo ''b'' 200, photo ''a'' 100, photo ''c'' 50]" for listing
    by (simp add: succeeded_def record_of_def mounted_resolveUrl settled_url_def
          sortNewestFirst_def sign_all_def photo_def gallery_objects_def)
  have but_b: "sortNewestFirst (map (record_of (gallery_env sign_all_but_b listing) mounted)
                (filter (succeeded (gallery_env sign_all_but_b listing) mounted) gallery_objects))
             = [photo ''a'' 100, photo ''c'' 50]" for listing
    by (simp add: succeeded_def record_of_def mounted_resolveUrl settled_url_def
          sortNewestFirst_def sign_all_def sign_all_but_b_def photo_def gallery_objects_def)
  show ?thesis
    using loadImagesFromS3_result [of "gallery_env sign_all (Inr (Some gallery_objects))" gallery_objects mounted]
      loadImagesFromS3_result [of "gallery_env sign_all_but_b (Inr (Some gallery_objects))" gallery_objects mounted]
    unfolding all but_b by auto
qed

subsection \<open>A listing without objects, and a listing that fails\<close>

lemma loadImagesFromS3_no_Contents:
  "listObjects e = Inr None \<Longrightarrow> loadImagesFromS3 e st = Inr (st\<lparr>images := [], loading := False\<rparr>)"
  by (simp add: loadImagesFromS3_def Let_def)

lemma loadImagesFromS3_listing_rejected:
  "listObjects e = Inl err \<Longrightarrow>
   loadImagesFromS3 e st =
     Inr (st\<lparr>console := console st @ [(''Error loading images from S3:'', err)],
             loading := False\<rparr>)"
  by (simp add: loadImagesFromS3_def Let_def console_error_def)

text \<open>No exception escapes \<^verbatim>\<open>loadImagesFromS3\<close>, whatever the listing call does.\<close>

lemma loadImagesFromS3_total: "\<exists>st1. loadImagesFromS3 e st = Inr st1"
proof (cases "listObjects e")
  case (Inl err)
  then show ?thesis by (simp add: loadImagesFromS3_listing_rejected)
next
  case (Inr Contents)
  show ?thesis
  proof (cases Contents)
    case None
    then show ?thesis using Inr by (simp add: loadImagesFromS3_no_Contents)
  next
    case (Some objs)
    then show ?thesis using Inr loadImagesFromS3_listed [of e objs st] by auto
  qed
qed

text \<open>
  Claim C8. When the listing call succeeds with no object, be it that the response has
  no \<^verbatim>\<open>Contents\<close> or that \<^verbatim>\<open>Contents\<close> is empty, \<^verbatim>\<open>loadImagesFromS3\<close> does not
  throw and sets \<^verbatim>\<open>images\<close> to the empty list; nothing else changes but
  \<^verbatim>\<open>loading\<close>: no signing request is issued and nothing is logged.
\<close>

theorem loadImagesFromS3_empty_listing:
  assumes "listObjects e = Inr None \<or> listObjects e = Inr (Some [])"
  shows "loadImagesFromS3 e st = Inr (st\<lparr>images := [], loading := False\<rparr>)"
  using assms
  by (auto simp: loadImagesFromS3_def Let_def sortNewestFirst_def)

theorem loadImagesFromS3_empty_listing_witness:
  "loadImagesFromS3 (gallery_env sign_all (Inr None)) shown
     = Inr (shown\<lparr>images := [], loading := False\<rparr>)
   \<and> loadImagesFromS3 (gallery_env sign_all (Inr (Some []))) shown
     = Inr (shown\<lparr>images := [], loading := False\<rparr>)"
  using loadImagesFromS3_empty_listing [of "gallery_env sign_all (Inr None)" shown]
    loadImagesFromS3_empty_listing [of "gallery_env sign_all (Inr (Some []))" shown]
  by simp

text \<open>
  Claim C5. \<^verbatim>\<open>loadImagesFromS3\<close> is called by the mount effect only, and
  \<^verbatim>\<open>setImages\<close> is called inside it only, so at every call \<^verbatim>\<open>images\<close> is the
  empty list of \<^verbatim>\<open>useState([])\<close>. From such a state, when the listing call
  rejects, no exception escapes: the error is caught and logged, \<^verbatim>\<open>loading\<close> is set
  to false, and the list of images that results is empty. Nothing else changes: no
  signing request is issued and the cache and the persisted text are as before.
\<close>

theorem loadImagesFromS3_listing_failure:
  assumes "listObjects e = Inl err"
      and "images st = []"
  shows "\<exists>st1. loadImagesFromS3 e st = Inr st1
           \<and> images st1 = []
           \<and> loading st1 = False
           \<and> console st1 = console st @ [(''Error loading images from S3:'', err)]
           \<and> requests st1 = requests st
           \<and> cache st1 = cache st
           \<and> storage st1 = storage st"
  using assms by (simp add: loadImagesFromS3_listing_rejected)

text \<open>The listing call fails with a network error right after mount.\<close>

theorem loadImagesFromS3_listing_failure_witness:
  "loadImagesFromS3 (gallery_env sign_all (Inl (ServiceError ''NetworkError''))) mounted
     = Inr (mounted\<lparr>console := [(''Error loading images from S3:'', ServiceError ''NetworkError'')],
                    loading := False\<rparr>)
   \<and> images mounted = []"
proof -
  have 1: "listObjects (gallery_env sign_all (Inl (ServiceError ''NetworkError'')))
             = Inl (ServiceError ''NetworkError'')"
    by simp
  have 2: "images mounted = []"
    by (simp add: mounted_def)
  obtain st1 where
    "loadImagesFromS3 (gallery_env sign_all (Inl (ServiceError ''NetworkError''))) mounted = Inr st1"
    and "images st1 = []" and "loading st1 = False"
    and "console st1 = console mounted @ [(''Error loading images from S3:'', ServiceError ''NetworkError'')]"
    and "requests st1 = requests mounted" and "cache st1 = cache mounted"
    and "storage st1 = storage mounted"
    using loadImagesFromS3_listing_failure [OF 1 2] by blast
  then show ?thesis
    by (simp add: mounted_def)
qed

section \<open>Writing through to storage\<close>

text \<open>
  Claim C9. For every key and value, \<^verbatim>\<open>set\<close> does not throw; afterwards the cache
  holds the value under the key, in place of any entry the key had, and every other
  key has the entry it had. When storage takes the write, the persisted item is the
  text of the whole new mapping and nothing is logged; when it does not, the persisted
  item is as before, the failure is logged (a full storage as QuotaExceededError, a
  denied one as SecurityError), and the cache holds the new entry all the same.
\<close>

theorem cache_set_write_through:
  "\<exists>st1. cache_set e key v st = Inr st1
      \<and> cache st1 = AList.update key v (cache st)
      \<and> cache_get key st1 = Some v
      \<and> (\<forall>k. k \<noteq> key \<longrightarrow> cache_get k st1 = cache_get k st)
      \<and> (if storage_usable e
             \<and> storage_accepts e CACHE_KEY (JSON_stringify (Object_fromEntries (cache st1)))
          then storage st1 = (storage st)(CACHE_KEY \<mapsto> JSON_stringify (Object_fromEntries (cache st1)))
               \<and> console st1 = console st
          else storage st1 = storage st
               \<and> console st1 = console st @
                    [(''Error saving cache:'',
                      if storage_usable e then QuotaExceededError else SecurityError)])"
  by (simp add: cache_set_def saveCache_cases console_error_def cache_get_def update_conv')

text \<open>An entry is overwritten, once with storage that takes the write and once with
  storage that is full.\<close>

theorem cache_set_write_through_witness:
  "(\<exists>st1. cache_set browser ''a'' (entry ''https://signed/a'' 7) (cached_at 3) = Inr st1
       \<and> cache st1 = [(''a'', entry ''https://signed/a'' 7)]
       \<and> storage st1 CACHE_KEY = Some (JsonText (JObj [(''a'', entry ''https://signed/a'' 7)]))
       \<and> console st1 = [])
   \<and> (\<exists>st1. cache_set quota_env ''a'' (entry ''https://signed/a'' 7) (cached_at 3) = Inr st1
       \<and> cache st1 = [(''a'', entry ''https://signed/a'' 7)]
       \<and> storage st1 CACHE_KEY = None
       \<and> console st1 = [(''Error saving cache:'', QuotaExceededError)])"
proof -
  have o: "Object_fromEntries [(''a'', v)] = JObj [(''a'', v)]" for v
    by (simp add: Object_fromEntries_def define_all_def own_property_order_def array_index_def
          is_digit_def)
  have 1: "\<exists>st1. cache_set browser ''a'' (entry ''https://signed/a'' 7) (cached_at 3) = Inr st1
       \<and> cache st1 = [(''a'', entry ''https://signed/a'' 7)]
       \<and> storage st1 CACHE_KEY = Some (JsonText (JObj [(''a'', entry ''https://signed/a'' 7)]))
       \<and> console st1 = []"
    using cache_set_write_through [of browser "''a''" "entry ''https://signed/a'' 7" "cached_at 3"]
    by (auto simp: scenario_defs o JSON_stringify_def)
  have 2: "\<exists>st1. cache_set quota_env ''a'' (entry ''https://signed/a'' 7) (cached_at 3) = Inr st1
       \<and> cache st1 = [(''a'', entry ''https://signed/a'' 7)]
       \<and> storage st1 CACHE_KEY = None
       \<and> console st1 = [(''Error saving cache:'', QuotaExceededError)]"
    using cache_set_write_through [of quota_env "''a''" "entry ''https://signed/a'' 7" "cached_at 3"]
    by (auto simp: scenario_defs)
  show ?thesis using 1 2 by blast
qed

section \<open>Constructing the cache\<close>

lemma loadCache_cases:
  "loadCache e st =
     (if \<not> storage_usable e
      then Inr (JObj [], console_error ''Error loading cache:'' SecurityError st)
      else case storage st CACHE_KEY of
             None \<Rightarrow> Inr (JObj [], st)
           | Some EmptyText \<Rightarrow> Inr (JObj [], st)
           | Some OtherText \<Rightarrow> Inr (JObj [], console_error ''Error loading cache:'' SyntaxError st)
           | Some (JsonText v) \<Rightarrow> Inr (js_value v, st))"
  by (simp add: loadCache_def getItem_def split: option.splits item.splits)

lemma new_Map_Nil [simp]: "new_Map [] = []"
  by (simp add: new_Map_def define_all_def)

lemma Object_entries_defined:
  "v \<noteq> JNull \<Longrightarrow> \<exists>entries. Object_entries v = Inr entries"
  by (cases v) simp_all

lemma js_value_null: "js_value v = JNull \<longleftrightarrow> v = JNull"
  by (cases v) simp_all

text \<open>
  Claim C6, amended. Construction of the cache yields an empty cache, logs nothing and
  does not throw when the persisted record is absent or is the empty string. It yields
  an empty cache, logs the failure and does not throw when storage cannot be read or
  when the record is not JSON text. When the record is the JSON text of a value other
  than \<^verbatim>\<open>null\<close>, construction does not throw and logs nothing, and the own
  enumerable properties of that value become the entries of the cache as they are,
  without any check of their shape.
\<close>

theorem createPersistentImageCache_degrades:
  "(storage_usable e \<and> (storage st CACHE_KEY = None \<or> storage st CACHE_KEY = Some EmptyText)
      \<longrightarrow> createPersistentImageCache e st = Inr (st\<lparr>cache := []\<rparr>))
   \<and> (\<not> storage_usable e
      \<longrightarrow> createPersistentImageCache e st
          = Inr (st\<lparr>console := console st @ [(''Error loading cache:'', SecurityError)], cache := []\<rparr>))
   \<and> (storage_usable e \<and> storage st CACHE_KEY = Some OtherText
      \<longrightarrow> createPersistentImageCache e st
          = Inr (st\<lparr>console := console st @ [(''Error loading cache:'', SyntaxError)], cache := []\<rparr>))
   \<and> (\<forall>v. storage_usable e \<and> storage st CACHE_KEY = Some (JsonText v) \<and> v \<noteq> JNull
      \<longrightarrow> (\<exists>entries. Object_entries (js_value v) = Inr entries
            \<and> createPersistentImageCache e st = Inr (st\<lparr>cache := new_Map entries\<rparr>)))"
proof (intro conjI impI allI)
  assume "storage_usable e \<and> (storage st CACHE_KEY = None \<or> storage st CACHE_KEY = Some EmptyText)"
  then show "createPersistentImageCache e st = Inr (st\<lparr>cache := []\<rparr>)"
    by (auto simp: createPersistentImageCache_def loadCache_cases)
next
  assume "\<not> storage_usable e"
  then show "createPersistentImageCache e st
          = Inr (st\<lparr>console := console st @ [(''Error loading cache:'', SecurityError)], cache := []\<rparr>)"
    by (simp add: createPersistentImageCache_def loadCache_cases console_error_def)
next
  assume "storage_usable e \<and> storage st CACHE_KEY = Some OtherText"
  then show "createPersistentImageCache e st
          = Inr (st\<lparr>console := console st @ [(''Error loading cache:'', SyntaxError)], cache := []\<rparr>)"
    by (simp add: createPersistentImageCache_def loadCache_cases console_error_def)
next
  fix v
  assume a: "storage_usable e \<and> storage st CACHE_KEY = Some (JsonText v) \<and> v \<noteq> JNull"
  then have "js_value v \<noteq> JNull" by (simp add: js_value_null)
  then obtain entries where en: "Object_entries (js_value v) = Inr entries"
    using Object_entries_defined by blast
  then show "\<exists>entries. Object_entries (js_value v) = Inr entries
            \<and> createPersistentImageCache e st = Inr (st\<lparr>cache := new_Map entries\<rparr>)"
    using a by (simp add: createPersistentImageCache_def loadCache_cases)
qed

text \<open>No record, an empty record, storage that denies access, a record that is not
  JSON, the number 5 and the string \<^verbatim>\<open>ab\<close>.\<close>

theorem createPersistentImageCache_degrades_witness:
  "createPersistentImageCache browser mounted = Inr mounted
   \<and> createPersistentImageCache browser (stored EmptyText) = Inr (stored EmptyText)
   \<and> createPersistentImageCache private_env (stored (JsonText (JObj [])))
       = Inr ((stored (JsonText (JObj [])))\<lparr>console := [(''Error loading cache:'', SecurityError)]\<rparr>)
   \<and> createPersistentImageCache browser (stored OtherText)
       = Inr ((stored OtherText)\<lparr>console := [(''Error loading cache:'', SyntaxError)]\<rparr>)
   \<and> createPersistentImageCache browser (stored (JsonText (JNum 5))) = Inr (stored (JsonText (JNum 5)))
   \<and> createPersistentImageCache browser (stored (JsonText (JStr ''ab'')))
       = Inr ((stored (JsonText (JStr ''ab'')))\<lparr>cache := [(''0'', JStr ''a''), (''1'', JStr ''b'')]\<rparr>)"
proof -
  have d: "decimal 0 = ''0''" "decimal (Suc 0) = ''1''"
    by (simp_all add: decimal.simps)
  have m: "new_Map [(''0'', x), (''1'', y)] = [(''0'', x), (''1'', y)]" for x y :: json
    by (simp add: new_Map_def define_all_def)
  show ?thesis
    using createPersistentImageCache_degrades [of browser mounted]
      createPersistentImageCache_degrades [of browser "stored EmptyText"]
      createPersistentImageCache_degrades [of private_env "stored (JsonText (JObj []))"]
      createPersistentImageCache_degrades [of browser "stored OtherText"]
      createPersistentImageCache_degrades [of browser "stored (JsonText (JNum 5))"]
      createPersistentImageCache_degrades [of browser "stored (JsonText (JStr ''ab''))"]
    by (simp add: scenario_defs d m enumerate_eq_zip)
qed

text \<open>
  Claim C6 as it stands fails. With no persisted record the cache starts empty and
  nothing is logged, since nothing has failed. With the record
  \<^verbatim>\<open>{"k": 7}\<close>, whose entry has the wrong shape, nothing is logged either and the
  cache is not empty: it holds \<^verbatim>\<open>7\<close> under \<^verbatim>\<open>k\<close>.
\<close>

theorem createPersistentImageCache_counterexample:
  "createPersistentImageCache browser mounted = Inr mounted
   \<and> console mounted = []
   \<and> createPersistentImageCache browser (stored (JsonText (JObj [(''k'', JNum 7)])))
       = Inr ((stored (JsonText (JObj [(''k'', JNum 7)])))\<lparr>cache := [(''k'', JNum 7)]\<rparr>)"
  by (simp add: createPersistentImageCache_def loadCache_cases scenario_defs
        define_all_def own_property_order_def array_index_def is_digit_def new_Map_def)

text \<open>The record \<^verbatim>\<open>null\<close> is JSON text, so \<^verbatim>\<open>loadCache\<close> returns \<^verbatim>\<open>null\<close>, and
  \<^verbatim>\<open>Object.entries(null)\<close>, outside the \<^verbatim>\<open>try\<close>, throws.\<close>

lemma createPersistentImageCache_null:
  "storage_usable e \<Longrightarrow> storage st CACHE_KEY = Some (JsonText JNull) \<Longrightarrow>
   createPersistentImageCache e st = Inl (TypeError, st)"
  by (simp add: createPersistentImageCache_def loadCache_cases)

lemma createPersistentImageCache_null_throws:
  "createPersistentImageCache browser (stored (JsonText JNull))
     = Inl (TypeError, stored (JsonText JNull))"
  by (simp add: createPersistentImageCache_null scenario_defs)

text \<open>A cache that was constructed has distinct keys.\<close>

lemma createPersistentImageCache_distinct:
  "createPersistentImageCache e st = Inr st1 \<Longrightarrow> distinct (map fst (cache st1))"
  by (auto simp: createPersistentImageCache_def bind_def lift_def distinct_new_Map
        split: sum.splits prod.splits)

section \<open>Saving and loading again\<close>

lemma update_fresh: "k \<notin> fst ` set al \<Longrightarrow> AList.update k v al = al @ [(k, v)]"
  by (induction al) auto

lemma fold_update_distinct:
  "distinct (map fst (acc @ kvs)) \<Longrightarrow>
   fold (\<lambda>kv acc. AList.update (fst kv) (snd kv) acc) kvs acc = acc @ kvs"
proof (induction kvs arbitrary: acc)
  case Nil
  show ?case by simp
next
  case (Cons kv kvs)
  have "fst kv \<notin> fst ` set acc" using Cons.prems by auto
  then have u: "AList.update (fst kv) (snd kv) acc = acc @ [kv]"
    by (simp add: update_fresh)
  have "distinct (map fst ((acc @ [kv]) @ kvs))" using Cons.prems by simp
  from Cons.IH [OF this] show ?case using u by simp
qed

lemma define_all_distinct: "distinct (map fst kvs) \<Longrightarrow> define_all kvs = kvs"
  using fold_update_distinct [of "[]" kvs] by (simp add: define_all_def)

lemma set_own_property_order [simp]: "set (own_property_order kvs) = set kvs"
  by (auto simp: own_property_order_def)

lemma distinct_own_property_order:
  "distinct (map fst kvs) \<Longrightarrow> distinct (map fst (own_property_order kvs))"
  by (auto simp: own_property_order_def distinct_map inj_on_def)

lemma own_property_order_idem:
  "own_property_order (own_property_order kvs) = own_property_order kvs"
proof -
  let ?ix = "\<lambda>kv. array_index (fst kv) \<noteq> None"
  let ?key = "\<lambda>kv. the (array_index (fst kv))"
  let ?A = "sort_key ?key (filter ?ix kvs)"
  let ?B = "filter (\<lambda>kv. array_index (fst kv) = None) kvs"
  have a1: "filter ?ix ?A = ?A" by (simp add: filter_sort)
  have a2: "filter (\<lambda>kv. array_index (fst kv) = None) ?A = []"
    by (auto simp: filter_empty_conv)
  have b1: "filter ?ix ?B = []" by (auto simp: filter_empty_conv)
  have b2: "filter (\<lambda>kv. array_index (fst kv) = None) ?B = ?B" by simp
  have s: "sort_key ?key ?A = ?A" by (rule sort_key_id_if_sorted) simp
  have "own_property_order (?A @ ?B) = ?A @ ?B"
    unfolding own_property_order_def [of "?A @ ?B"] filter_append a1 a2 b1 b2
    using s by simp
  then show ?thesis by (simp add: own_property_order_def)
qed

lemma map_of_own_property_order:
  "distinct (map fst kvs) \<Longrightarrow> map_of (own_property_order kvs) = map_of kvs"
  by (simp add: map_of_inject_set distinct_own_property_order)

lemma js_value_entry [simp]: "js_value (entry u t) = entry u t"
  by (simp add: entry_def define_all_def own_property_order_def array_index_def is_digit_def)

text \<open>
  Claim C10, amended. Take a cache whose entries all have the shape
  \<^verbatim>\<open>{ url, timestamp }\<close> and a storage that can be used and takes the write. Then
  \<^verbatim>\<open>saveCache\<close> followed by the construction of a fresh cache from that storage
  yields the same mapping: every key has the entry it had. The order of the keys is
  the property order of the saved object, array indices first.
\<close>

theorem persistence_round_trip:
  assumes "distinct (map fst (cache st))"
      and "\<forall>kv \<in> set (cache st). \<exists>u t. snd kv = entry u t"
      and "storage_usable e"
      and "storage_accepts e CACHE_KEY (JSON_stringify (Object_fromEntries (cache st)))"
  shows "\<exists>st1 st2. saveCache e st = Inr st1
           \<and> createPersistentImageCache e st1 = Inr st2
           \<and> cache st2 = own_property_order (cache st)
           \<and> map_of (cache st2) = map_of (cache st)
           \<and> (\<forall>k. cache_get k st2 = cache_get k st)"
proof -
  let ?c = "own_property_order (cache st)"
  let ?text = "JSON_stringify (Object_fromEntries (cache st))"
  let ?st1 = "st\<lparr>storage := (storage st)(CACHE_KEY \<mapsto> ?text)\<rparr>"
  have d: "distinct (map fst ?c)"
    using assms(1) by (rule distinct_own_property_order)
  have obj: "Object_fromEntries (cache st) = JObj ?c"
    using assms(1) by (simp add: Object_fromEntries_def define_all_distinct)
  have "map (\<lambda>kv. (fst kv, js_value (snd kv))) ?c = ?c"
  proof (rule map_idI)
    fix kv assume "kv \<in> set ?c"
    then obtain u t where "snd kv = entry u t" using assms(2) by auto
    then show "(fst kv, js_value (snd kv)) = kv" by (cases kv) simp
  qed
  then have val: "js_value (JObj ?c) = JObj ?c"
    using d by (simp add: define_all_distinct own_property_order_idem)
  have save: "saveCache e st = Inr ?st1"
    using assms(3,4) by (simp add: saveCache_cases)
  have load: "createPersistentImageCache e ?st1 = Inr (?st1\<lparr>cache := ?c\<rparr>)"
    using assms(3) d val
    by (simp add: createPersistentImageCache_def loadCache_cases obj JSON_stringify_def
          new_Map_def define_all_distinct)
  have m: "map_of ?c = map_of (cache st)"
    using assms(1) by (rule map_of_own_property_order)
  show ?thesis
    using save load m by (simp add: cache_get_def)
qed

lemma array_index_examples:
  "array_index ''b.jpg'' = None" "array_index ''10'' = Some 10" "array_index ''9'' = Some 9"
  by (simp_all add: array_index_def is_digit_def nat_of_digits_def)

text \<open>Three entries, two of them under array indices: the keys come back as
  \<^verbatim>\<open>9\<close>, \<^verbatim>\<open>10\<close>, \<^verbatim>\<open>b.jpg\<close>, each with its entry.\<close>

theorem persistence_round_trip_witness:
  "\<exists>st1 st2. saveCache browser album = Inr st1
      \<and> createPersistentImageCache browser st1 = Inr st2
      \<and> cache st2 =
          [(''9'', entry ''https://signed/9'' 13),
           (''10'', entry ''https://signed/10'' 12),
           (''b.jpg'', entry ''https://signed/b.jpg'' 11)]
      \<and> cache_get ''10'' st2 = cache_get ''10'' album"
proof -
  have 1: "distinct (map fst (cache album))"
    by (simp add: album_def)
  have 2: "\<forall>kv \<in> set (cache album). \<exists>u t. snd kv = entry u t"
    by (auto simp: album_def)
  have 3: "storage_usable browser"
    by (simp add: scenario_defs)
  have 4: "storage_accepts browser CACHE_KEY (JSON_stringify (Object_fromEntries (cache album)))"
    by (simp add: scenario_defs)
  have o: "own_property_order (cache album) =
          [(''9'', entry ''https://signed/9'' 13),
           (''10'', entry ''https://signed/10'' 12),
           (''b.jpg'', entry ''https://signed/b.jpg'' 11)]"
    by (simp add: album_def own_property_order_def array_index_examples)
  show ?thesis
    using persistence_round_trip [OF 1 2 3 4] unfolding o by blast
qed

text \<open>
  Claim C10 as it stands fails when storage does not take the write:
  \<^verbatim>\<open>saveCache\<close> catches the error and logs it, the persisted record stays absent, and
  the cache constructed from it is empty, while the cache that was saved holds an entry
  for \<^verbatim>\<open>a\<close>.
\<close>

theorem persistence_round_trip_counterexample:
  "saveCache quota_env (cached_at 3)
     = Inr ((cached_at 3)\<lparr>console := [(''Error saving cache:'', QuotaExceededError)]\<rparr>)
   \<and> createPersistentImageCache quota_env
        ((cached_at 3)\<lparr>console := [(''Error saving cache:'', QuotaExceededError)]\<rparr>)
     = Inr (mounted\<lparr>console := [(''Error saving cache:'', QuotaExceededError)]\<rparr>)
   \<and> cache_get ''a'' (cached_at 3) = Some (entry ''https://signed/a'' 3)
   \<and> cache_get ''a'' (mounted\<lparr>console := [(''Error saving cache:'', QuotaExceededError)]\<rparr>) = None"
  by (simp add: saveCache_cases createPersistentImageCache_def loadCache_cases console_error_def
        cache_get_def scenario_defs)

end
